theory Spec2Isabelle
  imports Main "HOL-Library.Word" "HOL-Library.Code_Target_Numeral"
begin

unbundle bit_operations_syntax

section \<open>The staking-authorization registry (contract TACoChildApplication)\<close>

text \<open>
  The registry is the Solidity contract \<open>TACoChildApplication\<close> (pragma \<open>^0.8.0\<close>: every
  arithmetic operation is checked and reverts with a panic on overflow or underflow,
  explicit conversions truncate). Storage is an explicit record passed through each
  operation; a reverting call is a value \<open>Inl e\<close> and leaves the storage as it was.
\<close>

subsection \<open>Data model\<close>

type_synonym address = "160 word"
type_synonym uint32 = "32 word"
type_synonym uint64 = "64 word"
type_synonym uint96 = "96 word"
type_synonym uint248 = "248 word"
type_synonym uint256 = "256 word"
type_synonym bytes32 = "256 word"

record StakingProviderInfo =
  operator :: address
  authorized :: uint96
  operatorConfirmed :: bool
  index :: uint248
  deauthorizing :: uint96
  endDeauthorization :: uint64

datatype event =
    OperatorUpdated address address
  | AuthorizationUpdated address uint96 uint96 uint64
  | OperatorConfirmed address address

text \<open>
  The storage of the contract. \<open>rootApplication\<close> and \<open>minimumAuthorization\<close> are the two
  immutables. A Solidity mapping is total (an absent key reads as the zero value), so the
  two mappings are total functions. The dynamic array \<open>stakingProviders\<close> is a list; its
  \<open>length\<close> is read as a natural number. \<open>emitted\<close> is the log of events, oldest first.
\<close>

record registry =
  rootApplication :: address
  minimumAuthorization :: uint96
  coordinator :: address
  stakingProviderInfo :: "address \<Rightarrow> StakingProviderInfo"
  stakingProviders :: "address list"
  operatorToStakingProvider :: "address \<Rightarrow> address"
  emitted :: "event list"

text \<open>
  The reasons a call reverts, one per \<open>require\<close> message of the source:
  \<^item> \<open>RootNotSpecified\<close>: "Address for root application must be specified"
  \<^item> \<open>MinimumNotSpecified\<close>: "Minimum authorization must be specified"
  \<^item> \<open>CallerNotRoot\<close>: "Caller must be the root application"
  \<^item> \<open>CoordinatorAlreadySet\<close>: "Coordinator already set"
  \<^item> \<open>CoordinatorNotSpecified\<close>: "Coordinator must be specified"
  \<^item> \<open>InvalidCoordinator\<close>: "Invalid coordinator"
  \<^item> \<open>OnlyCoordinator\<close>: "Only Coordinator allowed to confirm operator"
  \<^item> \<open>AuthorizationBelowMinimum\<close>: "Authorization must be greater than minimum"
  \<^item> \<open>ConfirmTwice\<close>: "Can't confirm same operator twice"
  \<^item> \<open>WrongStartIndex\<close>: "Wrong start index"
  \<^item> \<open>Panic\<close>: checked arithmetic or an array access out of bounds
  \<^item> \<open>InitializerRejected\<close>: the \<open>initializer\<close> modifier refused the call
  \<^item> \<open>ExternalCallReverted\<close>: a call into another contract reverted
\<close>

datatype error =
    RootNotSpecified
  | MinimumNotSpecified
  | CallerNotRoot
  | CoordinatorAlreadySet
  | CoordinatorNotSpecified
  | InvalidCoordinator
  | OnlyCoordinator
  | AuthorizationBelowMinimum
  | ConfirmTwice
  | WrongStartIndex
  | Panic
  | InitializerRejected
  | ExternalCallReverted

text \<open>
  What a call sees of the world outside the contract's storage:
  \<^item> \<open>thisAddress\<close> is \<open>address(this)\<close>, \<open>timestamp\<close> is \<open>block.timestamp\<close>;
  \<^item> \<open>application c\<close> is what \<open>Coordinator(c).application()\<close> returns, \<open>None\<close> when
    that call reverts;
  \<^item> \<open>rootAccepts op\<close> tells whether \<open>rootApplication.confirmOperatorAddress(op)\<close>
    returns (the callee is taken not to call back into the registry);
  \<^item> \<open>initializerAdmits\<close> tells whether the \<open>initializer\<close> modifier lets the call through.
    The modifier belongs to OpenZeppelin's \<open>Initializable\<close>, which is not part of this
    repository, so its verdict is a parameter of the call.
\<close>

record env =
  thisAddress :: address
  timestamp :: uint256
  application :: "address \<Rightarrow> address option"
  rootAccepts :: "address \<Rightarrow> bool"
  initializerAdmits :: bool

subsection \<open>Construction and initialization\<close>

text \<open>
  The constructor checks its two arguments and sets the immutables; every storage slot
  starts as zero. Its last statement, \<open>_disableInitializers()\<close>, only sets the flag that
  the \<open>initializer\<close> modifier reads, so it has no counterpart in the record.
\<close>

definition zeroInfo :: StakingProviderInfo where
  "zeroInfo = \<lparr>operator = 0, authorized = 0, operatorConfirmed = False, index = 0,
     deauthorizing = 0, endDeauthorization = 0\<rparr>"

definition constructor :: "address \<Rightarrow> uint96 \<Rightarrow> error + registry" where
  "constructor rootApp minAuth =
     (if \<not> rootApp \<noteq> 0 then Inl RootNotSpecified
      else if \<not> minAuth > 0 then Inl MinimumNotSpecified
      else Inr \<lparr>rootApplication = rootApp, minimumAuthorization = minAuth, coordinator = 0,
             stakingProviderInfo = (\<lambda>a. zeroInfo), stakingProviders = [],
             operatorToStakingProvider = (\<lambda>a. 0), emitted = []\<rparr>)"

definition initialize :: "env \<Rightarrow> address \<Rightarrow> registry \<Rightarrow> error + registry" where
  "initialize e coord s =
     (if \<not> initializerAdmits e then Inl InitializerRejected
      else if \<not> coordinator s = 0 then Inl CoordinatorAlreadySet
      else if \<not> coord \<noteq> 0 then Inl CoordinatorNotSpecified
      else (case application e coord of
              None \<Rightarrow> Inl ExternalCallReverted
            | Some app \<Rightarrow>
                if \<not> app = thisAddress e then Inl InvalidCoordinator
                else Inr (s\<lparr>coordinator := coord\<rparr>)))"

subsection \<open>Views\<close>

definition authorizedStake :: "registry \<Rightarrow> address \<Rightarrow> uint96" where
  "authorizedStake s p = authorized (stakingProviderInfo s p)"

definition pendingAuthorizationDecrease :: "registry \<Rightarrow> address \<Rightarrow> uint96" where
  "pendingAuthorizationDecrease s p = deauthorizing (stakingProviderInfo s p)"

text \<open>
  \<open>eligibleAmount -= info.deauthorizing\<close> is a checked \<open>uint96\<close> subtraction: it panics when
  \<open>deauthorizing\<close> exceeds \<open>authorized\<close>. The comparison with \<open>_endDate\<close> is made in
  \<open>uint256\<close>, to which the \<open>uint64\<close> field is widened.
\<close>

definition eligibleStake :: "registry \<Rightarrow> address \<Rightarrow> uint256 \<Rightarrow> error + uint96" where
  "eligibleStake s p endDate =
     (let info = stakingProviderInfo s p;
          eligibleAmount = authorized info
      in if 0 < endDeauthorization info \<and> ucast (endDeauthorization info) < endDate
         then (if deauthorizing info \<le> eligibleAmount
               then Inr (eligibleAmount - deauthorizing info)
               else Inl Panic)
         else Inr eligibleAmount)"

subsection \<open>Updates pushed by the root application\<close>

text \<open>
  The internal functions \<open>_updateOperator\<close> and \<open>_updateAuthorization\<close> of the source are
  \<open>internal_updateOperator\<close> and \<open>internal_updateAuthorization\<close> here. Neither reverts.
  \<open>uint248(stakingProviders.length)\<close> is an explicit conversion, which truncates.
\<close>

definition internal_updateOperator :: "address \<Rightarrow> address \<Rightarrow> registry \<Rightarrow> registry" where
  "internal_updateOperator p op s =
     (let info = stakingProviderInfo s p;
          oldOperator = operator info
      in if p = 0 \<or> op = oldOperator then s
         else
           let providers = (if index info = 0 then stakingProviders s @ [p]
                            else stakingProviders s);
               info1 = (if index info = 0 then info\<lparr>index := of_nat (length providers)\<rparr>
                        else info);
               info2 = info1\<lparr>operator := op\<rparr>;
               o2p1 = (operatorToStakingProvider s)(oldOperator := 0);
               o2p2 = (if op \<noteq> 0 then o2p1(op := p) else o2p1);
               info3 = info2\<lparr>operatorConfirmed := False\<rparr>
           in s\<lparr>stakingProviderInfo := (stakingProviderInfo s)(p := info3),
                stakingProviders := providers,
                operatorToStakingProvider := o2p2,
                emitted := emitted s @ [OperatorUpdated p op]\<rparr>)"

definition internal_updateAuthorization ::
  "address \<Rightarrow> uint96 \<Rightarrow> uint96 \<Rightarrow> uint64 \<Rightarrow> registry \<Rightarrow> registry" where
  "internal_updateAuthorization p a d e s =
     (let info = stakingProviderInfo s p
      in if p = 0 \<or> (a = authorized info \<and> d = deauthorizing info
                       \<and> e = endDeauthorization info)
         then s
         else s\<lparr>stakingProviderInfo := (stakingProviderInfo s)
                   (p := info\<lparr>authorized := a, deauthorizing := d, endDeauthorization := e\<rparr>),
                emitted := emitted s @ [AuthorizationUpdated p a d e]\<rparr>)"

definition updateOperator :: "address \<Rightarrow> address \<Rightarrow> address \<Rightarrow> registry \<Rightarrow> error + registry" where
  "updateOperator sender p op s =
     (if \<not> sender = rootApplication s then Inl CallerNotRoot
      else Inr (internal_updateOperator p op s))"

text \<open>The two overloads of \<open>updateAuthorization\<close>: the two-argument one is the legacy form.\<close>

definition updateAuthorization_legacy ::
  "address \<Rightarrow> address \<Rightarrow> uint96 \<Rightarrow> registry \<Rightarrow> error + registry" where
  "updateAuthorization_legacy sender p a s =
     (if \<not> sender = rootApplication s then Inl CallerNotRoot
      else Inr (internal_updateAuthorization p a 0 0 s))"

definition updateAuthorization ::
  "address \<Rightarrow> address \<Rightarrow> uint96 \<Rightarrow> uint96 \<Rightarrow> uint64 \<Rightarrow> registry \<Rightarrow> error + registry" where
  "updateAuthorization sender p a d e s =
     (if \<not> sender = rootApplication s then Inl CallerNotRoot
      else Inr (internal_updateAuthorization p a d e s))"

subsection \<open>Confirmation by the coordinator\<close>

definition confirmOperatorAddress ::
  "env \<Rightarrow> address \<Rightarrow> address \<Rightarrow> registry \<Rightarrow> error + registry" where
  "confirmOperatorAddress e sender op s =
     (if \<not> sender = coordinator s then Inl OnlyCoordinator
      else
        let p = operatorToStakingProvider s op;
            info = stakingProviderInfo s p
        in if \<not> authorized info \<ge> minimumAuthorization s then Inl AuthorizationBelowMinimum
           else if \<not> \<not> operatorConfirmed info then Inl ConfirmTwice
           else if \<not> rootAccepts e op then Inl ExternalCallReverted
           else Inr (s\<lparr>stakingProviderInfo := (stakingProviderInfo s)
                          (p := info\<lparr>operatorConfirmed := True\<rparr>),
                       emitted := emitted s @ [OperatorConfirmed p op]\<rparr>))"

subsection \<open>Enumeration of the active providers\<close>

definition getStakingProvidersLength :: "registry \<Rightarrow> nat" where
  "getStakingProvidersLength s = length (stakingProviders s)"

text \<open>
  \<open>bytes32(bytes20(stakingProvider)) | bytes32(uint256(eligibleAmount))\<close>: the address in
  the upper 20 bytes, the amount in the lower 12.
\<close>

definition packEntry :: "address \<Rightarrow> uint96 \<Rightarrow> bytes32" where
  "packEntry p amount = push_bit 96 (ucast p) OR ucast amount"

text \<open>
  The \<open>for\<close> loop of \<open>getActiveStakingProviders\<close>, from index \<open>i\<close> up to \<open>endIndex\<close>. The
  loop state is \<open>(allAuthorizedTokens, activeStakingProviders, resultIndex)\<close>. Reading
  \<open>stakingProviders[i]\<close> and writing \<open>activeStakingProviders[resultIndex]\<close> are bounds-checked,
  and \<open>allAuthorizedTokens += eligibleAmount\<close> is a checked \<open>uint96\<close> addition.
\<close>

function scanProviders ::
  "registry \<Rightarrow> uint256 \<Rightarrow> nat \<Rightarrow> nat \<Rightarrow> uint96 \<times> bytes32 list \<times> nat
     \<Rightarrow> error + (uint96 \<times> bytes32 list \<times> nat)" where
  "scanProviders s endDate endIndex i (allTokens, arr, resultIndex) =
     (if i < endIndex then
        (if \<not> i < length (stakingProviders s) then Inl Panic
         else
           let p = stakingProviders s ! i;
               info = stakingProviderInfo s p
           in case eligibleStake s p endDate of
                Inl err \<Rightarrow> Inl err
              | Inr eligibleAmount \<Rightarrow>
                  if eligibleAmount < minimumAuthorization s \<or> \<not> operatorConfirmed info
                  then scanProviders s endDate endIndex (Suc i) (allTokens, arr, resultIndex)
                  else if \<not> resultIndex < length arr then Inl Panic
                  else if \<not> unat allTokens + unat eligibleAmount < 2 ^ 96 then Inl Panic
                  else scanProviders s endDate endIndex (Suc i)
                         (allTokens + eligibleAmount,
                          arr[resultIndex := packEntry p eligibleAmount],
                          Suc resultIndex))
      else Inr (allTokens, arr, resultIndex))"
  by pat_completeness auto
termination
  by (relation "measure (\<lambda>(s, endDate, endIndex, i, acc). endIndex - i)") auto

text \<open>
  \<open>_startIndex + _maxStakingProviders\<close> and \<open>block.timestamp + _cohortDuration\<close> are checked
  \<open>uint256\<close> additions; the first is evaluated only when \<open>_maxStakingProviders != 0\<close>, the
  second only when \<open>_cohortDuration != 0\<close>. The result array is allocated with
  \<open>endIndex - _startIndex\<close> zero words and cut to \<open>resultIndex\<close> words by the final
  \<open>mstore\<close>.
\<close>

definition getActiveStakingProviders ::
  "env \<Rightarrow> uint256 \<Rightarrow> uint256 \<Rightarrow> uint32 \<Rightarrow> registry \<Rightarrow> error + (uint96 \<times> bytes32 list)" where
  "getActiveStakingProviders e startIndex maxStakingProviders cohortDuration s =
     (let endIndex = length (stakingProviders s)
      in if \<not> unat startIndex < endIndex then Inl WrongStartIndex
         else if maxStakingProviders \<noteq> 0
                 \<and> \<not> unat startIndex + unat maxStakingProviders < 2 ^ 256
         then Inl Panic
         else
           let endIndex = (if maxStakingProviders \<noteq> 0
                              \<and> unat startIndex + unat maxStakingProviders < endIndex
                           then unat startIndex + unat maxStakingProviders
                           else endIndex)
           in if cohortDuration \<noteq> 0
                 \<and> \<not> unat (timestamp e) + unat cohortDuration < 2 ^ 256
              then Inl Panic
              else
                let endDate = (if cohortDuration = 0 then - 1
                               else timestamp e + ucast cohortDuration)
                in case scanProviders s endDate endIndex (unat startIndex)
                          (0, replicate (endIndex - unat startIndex) 0, 0) of
                     Inl err \<Rightarrow> Inl err
                   | Inr (allAuthorizedTokens, activeStakingProviders, resultIndex) \<Rightarrow>
                       Inr (allAuthorizedTokens, take resultIndex activeStakingProviders))"

text \<open>The legacy overload with two parameters.\<close>

definition getActiveStakingProviders_legacy ::
  "env \<Rightarrow> uint256 \<Rightarrow> uint256 \<Rightarrow> registry \<Rightarrow> error + (uint96 \<times> bytes32 list)" where
  "getActiveStakingProviders_legacy e startIndex maxStakingProviders s =
     getActiveStakingProviders e startIndex maxStakingProviders 0 s"

subsection \<open>Sequences of transactions\<close>

text \<open>
  The state-changing entry points, each with its \<open>msg.sender\<close> first. A transaction that
  reverts leaves the storage untouched; \<open>run\<close> applies a sequence of transactions, each
  in its own environment.
\<close>

datatype call =
    Initialize address
  | UpdateOperator address address address
  | UpdateAuthorizationLegacy address address uint96
  | UpdateAuthorization address address uint96 uint96 uint64
  | ConfirmOperatorAddress address address

fun exec :: "env \<Rightarrow> call \<Rightarrow> registry \<Rightarrow> error + registry" where
  "exec e (Initialize coord) s = initialize e coord s"
| "exec e (UpdateOperator sender p op) s = updateOperator sender p op s"
| "exec e (UpdateAuthorizationLegacy sender p a) s = updateAuthorization_legacy sender p a s"
| "exec e (UpdateAuthorization sender p a d t) s = updateAuthorization sender p a d t s"
| "exec e (ConfirmOperatorAddress sender op) s = confirmOperatorAddress e sender op s"

definition transact :: "env \<times> call \<Rightarrow> registry \<Rightarrow> registry" where
  "transact tx s = (case exec (fst tx) (snd tx) s of Inl err \<Rightarrow> s | Inr s' \<Rightarrow> s')"

fun run :: "registry \<Rightarrow> (env \<times> call) list \<Rightarrow> registry" where
  "run s [] = s"
| "run s (tx # txs) = run (transact tx s) txs"

subsection \<open>Auxiliary notions for stating the properties\<close>

text \<open>
  The test of the loop body of \<open>getActiveStakingProviders\<close> on one provider: the provider
  is kept when its eligible stake is computed, is not below the minimum and its operator
  is confirmed. \<open>stakeAt\<close> is the amount that is packed and summed for a kept provider.
\<close>

definition isActive :: "registry \<Rightarrow> uint256 \<Rightarrow> address \<Rightarrow> bool" where
  "isActive s endDate p =
     (case eligibleStake s p endDate of
        Inl err \<Rightarrow> False
      | Inr eligibleAmount \<Rightarrow>
          \<not> (eligibleAmount < minimumAuthorization s
             \<or> \<not> operatorConfirmed (stakingProviderInfo s p)))"

definition stakeAt :: "registry \<Rightarrow> uint256 \<Rightarrow> address \<Rightarrow> uint96" where
  "stakeAt s endDate p =
     (case eligibleStake s p endDate of Inl err \<Rightarrow> 0 | Inr eligibleAmount \<Rightarrow> eligibleAmount)"

text \<open>Transactions that call \<open>updateOperator\<close>, and those through which the root
  application gives provider \<open>p\<close> an operator other than the zero address.\<close>

fun isUpdateOperator :: "call \<Rightarrow> bool" where
  "isUpdateOperator (UpdateOperator sender p op) = True"
| "isUpdateOperator c = False"

fun assignsOperator :: "address \<Rightarrow> address \<Rightarrow> call \<Rightarrow> bool" where
  "assignsOperator root p (UpdateOperator sender q op) = (sender = root \<and> q = p \<and> op \<noteq> 0)"
| "assignsOperator root p c = False"

text \<open>
  The invariant of the storage: the zero address has no record and no operator entry, a
  non-zero entry of \<open>operatorToStakingProvider\<close> points to a provider bound to that
  operator, and \<open>index\<close> is the position in \<open>stakingProviders\<close> plus one, with 0 for
  the providers that are not enumerated.
\<close>

definition registryInv :: "registry \<Rightarrow> bool" where
  "registryInv s \<longleftrightarrow>
     0 < minimumAuthorization s
     \<and> stakingProviderInfo s 0 = zeroInfo
     \<and> operatorToStakingProvider s 0 = 0
     \<and> (\<forall>op. operatorToStakingProvider s op \<noteq> 0 \<longrightarrow>
            operator (stakingProviderInfo s (operatorToStakingProvider s op)) = op)
     \<and> distinct (stakingProviders s)
     \<and> (\<forall>p. index (stakingProviderInfo s p) = 0 \<longleftrightarrow> p \<notin> set (stakingProviders s))
     \<and> (\<forall>i < length (stakingProviders s).
            unat (index (stakingProviderInfo s (stakingProviders s ! i))) = Suc i)"

subsection \<open>A sample deployment\<close>

text \<open>
  Root application 1, minimum authorization 50, coordinator 2, registry address 3.
  Provider 10 is bound to operator 20 with 100 authorized, of which 40 are being
  deauthorized until time 5000; the operator is then confirmed.
\<close>

definition demo_env :: env where
  "demo_env = \<lparr>thisAddress = 3, timestamp = 1000, application = (\<lambda>c. Some 3),
     rootAccepts = (\<lambda>op. True), initializerAdmits = True\<rparr>"

definition demo_fresh :: registry where
  "demo_fresh = \<lparr>rootApplication = 1, minimumAuthorization = 50, coordinator = 0,
     stakingProviderInfo = (\<lambda>a. zeroInfo), stakingProviders = [],
     operatorToStakingProvider = (\<lambda>a. 0), emitted = []\<rparr>"

definition demo_txs :: "(env \<times> call) list" where
  "demo_txs =
     [(demo_env, Initialize 2),
      (demo_env, UpdateOperator 1 10 20),
      (demo_env, UpdateAuthorization 1 10 100 40 5000)]"

definition demo_bound :: registry where
  "demo_bound = run demo_fresh demo_txs"

definition demo_confirmed :: registry where
  "demo_confirmed = transact (demo_env, ConfirmOperatorAddress 2 20) demo_bound"

text \<open>Provider 10 with nothing authorized and 1 pending deauthorization ending at time 1.\<close>

definition demo_underwater :: registry where
  "demo_underwater = transact (demo_env, UpdateAuthorization 1 10 0 1 1) demo_bound"

text \<open>A second provider 11, bound to operator 22 with 70 authorized and confirmed.\<close>

definition demo_pair :: registry where
  "demo_pair = run demo_confirmed
     [(demo_env, UpdateOperator 1 11 22),
      (demo_env, UpdateAuthorizationLegacy 1 11 70),
      (demo_env, ConfirmOperatorAddress 2 22)]"

text \<open>Both providers with \<open>2 ^ 95\<close> authorized each.\<close>

definition demo_whales :: registry where
  "demo_whales = run demo_pair
     [(demo_env, UpdateAuthorizationLegacy 1 10 (2 ^ 95)),
      (demo_env, UpdateAuthorizationLegacy 1 11 (2 ^ 95))]"

text \<open>Provider 10, confirmed, with 60 of its 100 being deauthorized until time 5000.\<close>

definition demo_leaving :: registry where
  "demo_leaving = transact (demo_env, UpdateAuthorization 1 10 100 60 5000) demo_confirmed"

section \<open>Properties\<close>

declare scanProviders.simps [simp del]

subsection \<open>The eligible stake\<close>

lemma unat_widen64:
  fixes t :: uint64
  shows "unat (ucast t :: uint256) = unat t"
proof -
  have "unat t < 2 ^ 64" using unsigned_less [of t] by simp
  also have "(2::nat) ^ 64 < 2 ^ 256" by simp
  finally show ?thesis by (simp add: unsigned_ucast_eq take_bit_nat_eq_self)
qed

lemma unat_minus_one_256: "unat (- 1 :: uint256) = 2 ^ 256 - 1"
  by (simp add: unsigned_minus_1_eq_mask mask_eq_exp_minus_1)

lemma eligibleStake_cases:
  "eligibleStake s p endDate =
     (if 0 < unat (endDeauthorization (stakingProviderInfo s p))
           \<and> unat (endDeauthorization (stakingProviderInfo s p)) < unat endDate
      then (if unat (deauthorizing (stakingProviderInfo s p))
                 \<le> unat (authorized (stakingProviderInfo s p))
            then Inr (authorized (stakingProviderInfo s p) - deauthorizing (stakingProviderInfo s p))
            else Inl Panic)
      else Inr (authorized (stakingProviderInfo s p)))"
  by (simp add: eligibleStake_def Let_def unat_widen64 word_le_nat_alt word_less_nat_alt)

lemma eligibleStake_error: "eligibleStake s p endDate = Inl err \<Longrightarrow> err = Panic"
  by (simp add: eligibleStake_def Let_def split: if_splits)

lemma eligibleStake_forever:
  "eligibleStake s p (- 1) =
     (if endDeauthorization (stakingProviderInfo s p) \<noteq> 0
      then (if unat (deauthorizing (stakingProviderInfo s p))
                 \<le> unat (authorized (stakingProviderInfo s p))
            then Inr (authorized (stakingProviderInfo s p) - deauthorizing (stakingProviderInfo s p))
            else Inl Panic)
      else Inr (authorized (stakingProviderInfo s p)))"
proof -
  have "unat (endDeauthorization (stakingProviderInfo s p)) < 2 ^ 64"
    using unsigned_less [of "endDeauthorization (stakingProviderInfo s p)"] by simp
  also have "(2::nat) ^ 64 < 2 ^ 256 - 1" by simp
  finally show ?thesis
    by (simp add: eligibleStake_cases unat_minus_one_256 unat_gt_0)
qed

lemma panic_forever:
  "eligibleStake s p (- 1) = Inl Panic \<longleftrightarrow>
     endDeauthorization (stakingProviderInfo s p) \<noteq> 0
     \<and> unat (authorized (stakingProviderInfo s p)) < unat (deauthorizing (stakingProviderInfo s p))"
  by (simp add: eligibleStake_forever not_le)

lemma stakeAt_forever:
  assumes "\<not> (endDeauthorization (stakingProviderInfo s p) \<noteq> 0
     \<and> unat (authorized (stakingProviderInfo s p)) < unat (deauthorizing (stakingProviderInfo s p)))"
  shows "unat (stakeAt s (- 1) p) =
     (if endDeauthorization (stakingProviderInfo s p) \<noteq> 0
      then unat (authorized (stakingProviderInfo s p)) - unat (deauthorizing (stakingProviderInfo s p))
      else unat (authorized (stakingProviderInfo s p)))"
proof (cases "endDeauthorization (stakingProviderInfo s p) = 0")
  case True
  then show ?thesis by (simp add: stakeAt_def eligibleStake_forever)
next
  case False
  with assms have le: "unat (deauthorizing (stakingProviderInfo s p))
      \<le> unat (authorized (stakingProviderInfo s p))" by simp
  then have "deauthorizing (stakingProviderInfo s p) \<le> authorized (stakingProviderInfo s p)"
    by (simp add: word_le_nat_alt)
  then show ?thesis using False le by (simp add: stakeAt_def eligibleStake_forever unat_sub)
qed

lemma isActive_forever:
  assumes "\<not> (endDeauthorization (stakingProviderInfo s p) \<noteq> 0
     \<and> unat (authorized (stakingProviderInfo s p)) < unat (deauthorizing (stakingProviderInfo s p)))"
  shows "isActive s (- 1) p \<longleftrightarrow>
     operatorConfirmed (stakingProviderInfo s p)
     \<and> unat (minimumAuthorization s) \<le> unat (stakeAt s (- 1) p)"
proof (cases "endDeauthorization (stakingProviderInfo s p) = 0")
  case True
  then show ?thesis
    by (auto simp: isActive_def stakeAt_def eligibleStake_forever word_less_nat_alt not_less)
next
  case False
  with assms have le: "unat (deauthorizing (stakingProviderInfo s p))
      \<le> unat (authorized (stakingProviderInfo s p))" by simp
  then show ?thesis using False
    by (auto simp: isActive_def stakeAt_def eligibleStake_forever word_less_nat_alt not_less)
qed

subsection \<open>Packed entries\<close>

text \<open>A packed entry gives back the provider (its upper 20 bytes) and the amount (its
  lower 12 bytes).\<close>

lemma packEntry_address: "ucast (drop_bit 96 (packEntry p a)) = p"
  unfolding packEntry_def
  by (rule bit_word_eqI) (auto simp: bit_simps dest: bit_imp_le_length)

lemma packEntry_amount: "ucast (packEntry p a) = a"
  unfolding packEntry_def
  by (rule bit_word_eqI) (auto simp: bit_simps)

subsection \<open>The scan loop and the enumeration as a filter\<close>

lemma scanProviders_done:
  "\<not> i < endIndex \<Longrightarrow> scanProviders s ed endIndex i acc = Inr acc"
  by (cases acc) (simp add: scanProviders.simps)

lemma slice_step:
  assumes "i < endIndex" "endIndex \<le> length xs"
  shows "take (endIndex - i) (drop i xs) = xs ! i # take (endIndex - Suc i) (drop (Suc i) xs)"
proof -
  from assms have "i < length xs" by simp
  then have "drop i xs = xs ! i # drop (Suc i) xs"
    by (simp add: Cons_nth_drop_Suc)
  moreover from assms have "endIndex - i = Suc (endIndex - Suc i)" by simp
  ultimately show ?thesis by simp
qed

lemma scanProviders_char:
  assumes "i \<le> endIndex" "endIndex \<le> length (stakingProviders s)"
    and "ri + (endIndex - i) \<le> length arr"
  shows "scanProviders s ed endIndex i (tot, arr, ri) =
    (let slice = take (endIndex - i) (drop i (stakingProviders s));
         surv = filter (isActive s ed) slice;
         amount = sum_list (map (\<lambda>p. unat (stakeAt s ed p)) surv)
     in if (\<exists>p\<in>set slice. eligibleStake s p ed = Inl Panic) \<or> \<not> unat tot + amount < 2 ^ 96
        then Inl Panic
        else Inr (tot + of_nat amount,
                  take ri arr @ map (\<lambda>p. packEntry p (stakeAt s ed p)) surv
                    @ drop (ri + length surv) arr,
                  ri + length surv))"
  using assms
proof (induction "endIndex - i" arbitrary: i tot arr ri)
  case 0
  have "unat tot < 2 ^ 96" using unsigned_less [of tot] by simp
  with 0 show ?case by (simp add: scanProviders_done)
next
  case (Suc n)
  let ?xs = "stakingProviders s"
  let ?p = "?xs ! i"
  from Suc.hyps(2) have lt: "i < endIndex" by simp
  with Suc.prems have ilen: "i < length ?xs" by simp
  have slice: "take (endIndex - i) (drop i ?xs) = ?p # take (endIndex - Suc i) (drop (Suc i) ?xs)"
    using lt Suc.prems(2) by (rule slice_step)
  have n: "n = endIndex - Suc i" using Suc.hyps(2) by simp
  have le': "Suc i \<le> endIndex" using lt by simp
  show ?case
  proof (cases "eligibleStake s ?p ed")
    case (Inl err)
    then have "eligibleStake s ?p ed = Inl Panic" using eligibleStake_error by blast
    then show ?thesis
      using lt ilen slice by (subst scanProviders.simps) (simp add: Let_def)
  next
    case (Inr a)
    show ?thesis
    proof (cases "isActive s ed ?p")
      case False
      then have skip: "a < minimumAuthorization s \<or> \<not> operatorConfirmed (stakingProviderInfo s ?p)"
        using Inr by (simp add: isActive_def)
      have room: "ri + (endIndex - Suc i) \<le> length arr" using Suc.prems(3) by simp
      have "scanProviders s ed endIndex i (tot, arr, ri)
              = scanProviders s ed endIndex (Suc i) (tot, arr, ri)"
        using lt ilen Inr skip by (subst scanProviders.simps) (simp add: Let_def)
      also note Suc.hyps(1) [OF n le' Suc.prems(2) room]
      finally show ?thesis using slice False Inr by (simp add: Let_def)
    next
      case True
      then have keep: "\<not> (a < minimumAuthorization s \<or> \<not> operatorConfirmed (stakingProviderInfo s ?p))"
        using Inr by (simp add: isActive_def)
      have st: "stakeAt s ed ?p = a" using Inr by (simp add: stakeAt_def)
      have rilen: "ri < length arr" using Suc.prems(3) lt by simp
      show ?thesis
      proof (cases "unat tot + unat a < 2 ^ 96")
        case False
        have "scanProviders s ed endIndex i (tot, arr, ri) = Inl Panic"
          using lt ilen Inr keep rilen False by (subst scanProviders.simps) (simp add: Let_def)
        then show ?thesis using slice True st False by (simp add: Let_def)
      next
        case fits: True
        have room: "Suc ri + (endIndex - Suc i) \<le> length (arr[ri := packEntry ?p a])"
          using Suc.prems(3) lt by simp
        have ua: "unat (tot + a) = unat tot + unat a"
          using fits by (simp add: unat_add_lem [THEN iffD1])
        have "scanProviders s ed endIndex i (tot, arr, ri)
                = scanProviders s ed endIndex (Suc i)
                    (tot + a, arr[ri := packEntry ?p a], Suc ri)"
          using lt ilen Inr keep rilen fits by (subst scanProviders.simps) (simp add: Let_def)
        also note Suc.hyps(1) [OF n le' Suc.prems(2) room]
        finally show ?thesis
          using slice True Inr st ua rilen
          by (simp add: Let_def take_Suc_conv_app_nth add.assoc)
      qed
    qed
  qed
qed

lemma getActiveStakingProviders_char:
  "getActiveStakingProviders e startIndex maxCount cohortDuration s =
     (let xs = stakingProviders s;
          endDate = (if cohortDuration = 0 then - 1 else timestamp e + ucast cohortDuration);
          slice = (if maxCount = 0 then drop (unat startIndex) xs
                   else take (unat maxCount) (drop (unat startIndex) xs));
          surv = filter (isActive s endDate) slice;
          amount = sum_list (map (\<lambda>p. unat (stakeAt s endDate p)) surv)
      in if \<not> unat startIndex < length xs then Inl WrongStartIndex
         else if (maxCount \<noteq> 0 \<and> \<not> unat startIndex + unat maxCount < 2 ^ 256)
                 \<or> (cohortDuration \<noteq> 0
                     \<and> \<not> unat (timestamp e) + unat cohortDuration < 2 ^ 256)
                 \<or> (\<exists>p\<in>set slice. eligibleStake s p endDate = Inl Panic)
                 \<or> \<not> amount < 2 ^ 96
         then Inl Panic
         else Inr (of_nat amount, map (\<lambda>p. packEntry p (stakeAt s endDate p)) surv))"
proof (cases "unat startIndex < length (stakingProviders s)")
  case False
  then show ?thesis by (simp add: getActiveStakingProviders_def Let_def)
next
  case inrange: True
  let ?xs = "stakingProviders s"
  let ?st = "unat startIndex"
  let ?endIndex = "if maxCount \<noteq> 0 \<and> ?st + unat maxCount < length ?xs
                   then ?st + unat maxCount else length ?xs"
  let ?endDate = "if cohortDuration = 0 then - 1 else timestamp e + ucast cohortDuration"
  have le1: "?st \<le> ?endIndex" using inrange by simp
  have le2: "?endIndex \<le> length ?xs" by simp
  have room: "0 + (?endIndex - ?st) \<le> length (replicate (?endIndex - ?st) (0::bytes32))"
    by simp
  have slice: "take (?endIndex - ?st) (drop ?st ?xs)
      = (if maxCount = 0 then drop ?st ?xs else take (unat maxCount) (drop ?st ?xs))"
    by (auto simp: unat_eq_0)
  note scan = scanProviders_char [OF le1 le2 room, where tot = 0 and ed = ?endDate]
  show ?thesis
    unfolding getActiveStakingProviders_def Let_def scan slice
    using inrange by (simp add: Let_def)
qed

lemma endDate_horizon:
  "(of_nat (if cohortDuration = 0 then 2 ^ 256 - 1
            else unat (timestamp e) + unat (cohortDuration :: uint32)) :: uint256)
   = (if cohortDuration = 0 then - 1 else timestamp e + ucast cohortDuration)"
  by simp

lemma filter_forever:
  assumes "\<forall>p\<in>set xs. \<not> (endDeauthorization (stakingProviderInfo s p) \<noteq> 0
     \<and> unat (authorized (stakingProviderInfo s p)) < unat (deauthorizing (stakingProviderInfo s p)))"
  shows "filter (isActive s (- 1)) xs
     = filter (\<lambda>p. operatorConfirmed (stakingProviderInfo s p)
                    \<and> unat (minimumAuthorization s) \<le> unat (stakeAt s (- 1) p)) xs"
  using assms by (intro filter_cong refl isActive_forever) blast

lemma getActiveStakingProviders_forever:
  "getActiveStakingProviders e 0 0 0 s =
     (if stakingProviders s = [] then Inl WrongStartIndex
      else if (\<exists>p\<in>set (stakingProviders s). eligibleStake s p (- 1) = Inl Panic)
              \<or> 2 ^ 96 \<le> sum_list (map (\<lambda>p. unat (stakeAt s (- 1) p))
                                   (filter (isActive s (- 1)) (stakingProviders s)))
      then Inl Panic
      else Inr (of_nat (sum_list (map (\<lambda>p. unat (stakeAt s (- 1) p))
                                   (filter (isActive s (- 1)) (stakingProviders s)))),
                map (\<lambda>p. packEntry p (stakeAt s (- 1) p))
                  (filter (isActive s (- 1)) (stakingProviders s))))"
  by (simp add: getActiveStakingProviders_char Let_def not_less)

subsection \<open>The storage invariant\<close>

lemma address_list_bound:
  fixes xs :: "address list"
  assumes "distinct xs"
  shows "length xs \<le> 2 ^ 160"
proof -
  have "length xs = card (set xs)" using assms by (simp add: distinct_card)
  also have "\<dots> \<le> card (UNIV :: address set)" by (rule card_mono) simp_all
  also have "\<dots> = 2 ^ 160" by (simp add: card_word)
  finally show ?thesis .
qed

lemma index_of_length:
  fixes xs :: "address list"
  assumes "distinct xs"
  shows "unat (of_nat (Suc (length xs)) :: uint248) = Suc (length xs)"
proof -
  have "length xs \<le> 2 ^ 160" using assms by (rule address_list_bound)
  also have "(2::nat) ^ 160 < 2 ^ 248 - 1" by simp
  finally have "Suc (length xs) < 2 ^ 248" by simp
  then show ?thesis by (simp add: unat_of_nat del: of_nat_Suc)
qed

lemma constructor_inv: "constructor r m = Inr s \<Longrightarrow> registryInv s"
  by (auto simp: constructor_def registryInv_def zeroInfo_def split: if_splits)

lemma internal_updateOperator_inv:
  assumes "registryInv s"
  shows "registryInv (internal_updateOperator p op s)"
proof (cases "p = 0 \<or> op = operator (stakingProviderInfo s p)")
  case True
  then show ?thesis using assms by (simp add: internal_updateOperator_def)
next
  case False
  then have p0: "p \<noteq> 0" and opn: "op \<noteq> operator (stakingProviderInfo s p)" by simp_all
  let ?xs = "stakingProviders s"
  from assms have dist: "distinct ?xs"
    and idx0: "\<And>q. index (stakingProviderInfo s q) = 0 \<longleftrightarrow> q \<notin> set ?xs"
    and pos: "\<And>i. i < length ?xs \<Longrightarrow> unat (index (stakingProviderInfo s (?xs ! i))) = Suc i"
    and o2p: "\<And>a. operatorToStakingProvider s a \<noteq> 0 \<Longrightarrow>
                operator (stakingProviderInfo s (operatorToStakingProvider s a)) = a"
    and z: "stakingProviderInfo s 0 = zeroInfo" "operatorToStakingProvider s 0 = 0"
           "0 < minimumAuthorization s"
    by (simp_all add: registryInv_def)
  have len: "unat (of_nat (Suc (length ?xs)) :: uint248) = Suc (length ?xs)"
    using dist by (rule index_of_length)
  then have nz: "(of_nat (Suc (length ?xs)) :: uint248) \<noteq> 0"
    by (metis Zero_not_Suc unat_0)
  show ?thesis
  proof (cases "index (stakingProviderInfo s p) = 0")
    case True
    then have notin: "p \<notin> set ?xs" using idx0 by simp
    show ?thesis
      unfolding registryInv_def
      using p0 opn True notin dist idx0 pos o2p z len nz
      by (auto simp: internal_updateOperator_def Let_def nth_append simp del: of_nat_Suc)
  next
    case False
    then have isin: "p \<in> set ?xs" using idx0 by simp
    show ?thesis
      unfolding registryInv_def
      using p0 opn False isin dist idx0 pos o2p z
      by (auto simp: internal_updateOperator_def Let_def)
  qed
qed

lemma internal_updateAuthorization_inv:
  assumes "registryInv s"
  shows "registryInv (internal_updateAuthorization p a d t s)"
  using assms
  by (auto simp: registryInv_def internal_updateAuthorization_def Let_def)

lemma confirmOperatorAddress_inv:
  assumes inv: "registryInv s" and ok: "confirmOperatorAddress e sender op s = Inr s'"
  shows "registryInv s'"
proof -
  let ?p = "operatorToStakingProvider s op"
  from ok have s': "s' = s\<lparr>stakingProviderInfo := (stakingProviderInfo s)
                          (?p := (stakingProviderInfo s ?p)\<lparr>operatorConfirmed := True\<rparr>),
                        emitted := emitted s @ [OperatorConfirmed ?p op]\<rparr>"
    and enough: "minimumAuthorization s \<le> authorized (stakingProviderInfo s ?p)"
    by (simp_all add: confirmOperatorAddress_def Let_def split: if_splits)
  from inv enough have "?p \<noteq> 0"
    by (auto simp: registryInv_def zeroInfo_def)
  then have zero: "stakingProviderInfo s' 0 = stakingProviderInfo s 0"
    using s' by simp
  have same: "operator (stakingProviderInfo s' q) = operator (stakingProviderInfo s q)"
             "index (stakingProviderInfo s' q) = index (stakingProviderInfo s q)" for q
    using s' by simp_all
  have rest: "stakingProviders s' = stakingProviders s"
             "operatorToStakingProvider s' = operatorToStakingProvider s"
             "minimumAuthorization s' = minimumAuthorization s"
    using s' by simp_all
  show ?thesis
    using inv unfolding registryInv_def same rest zero by simp
qed

lemma initialize_inv:
  assumes "registryInv s" "initialize e c s = Inr s'"
  shows "registryInv s'"
  using assms
  by (auto simp: registryInv_def initialize_def split: if_splits option.splits)

lemma transact_inv:
  assumes "registryInv s"
  shows "registryInv (transact tx s)"
proof (cases "exec (fst tx) (snd tx) s")
  case (Inl err)
  then show ?thesis using assms by (simp add: transact_def)
next
  case (Inr s')
  then have "registryInv s'"
    using assms
    by (cases "snd tx")
      (auto simp: updateOperator_def updateAuthorization_def updateAuthorization_legacy_def
         internal_updateOperator_inv internal_updateAuthorization_inv
         split: if_splits
         dest: confirmOperatorAddress_inv [OF assms] initialize_inv [OF assms])
  then show ?thesis using Inr by (simp add: transact_def)
qed

lemma run_inv: "registryInv s \<Longrightarrow> registryInv (run s txs)"
  by (induction txs arbitrary: s) (simp_all add: transact_inv)

subsection \<open>What a transaction leaves unchanged\<close>

lemma run_snoc: "run s (txs @ [tx]) = transact tx (run s txs)"
  by (induction txs arbitrary: s) simp_all

lemma transact_immutables:
  "rootApplication (transact tx s) = rootApplication s
   \<and> minimumAuthorization (transact tx s) = minimumAuthorization s"
  by (cases "snd tx")
    (auto simp: transact_def initialize_def updateOperator_def updateAuthorization_def
       updateAuthorization_legacy_def internal_updateOperator_def
       internal_updateAuthorization_def confirmOperatorAddress_def Let_def
       split: sum.splits if_splits option.splits)

lemma run_immutables:
  "rootApplication (run s txs) = rootApplication s
   \<and> minimumAuthorization (run s txs) = minimumAuthorization s"
  by (induction txs arbitrary: s) (simp_all add: transact_immutables)

lemma transact_coordinator:
  "coordinator s \<noteq> 0 \<Longrightarrow> coordinator (transact tx s) = coordinator s"
  by (cases "snd tx")
    (auto simp: transact_def initialize_def updateOperator_def updateAuthorization_def
       updateAuthorization_legacy_def internal_updateOperator_def
       internal_updateAuthorization_def confirmOperatorAddress_def Let_def
       split: sum.splits if_splits option.splits)

lemma run_coordinator:
  "coordinator s \<noteq> 0 \<Longrightarrow> coordinator (run s txs) = coordinator s"
  by (induction txs arbitrary: s) (simp_all add: transact_coordinator)

lemma transact_keeps_confirmation:
  assumes "\<not> isUpdateOperator (snd tx)"
  shows "operatorToStakingProvider (transact tx s) = operatorToStakingProvider s
         \<and> (operatorConfirmed (stakingProviderInfo s p)
              \<longrightarrow> operatorConfirmed (stakingProviderInfo (transact tx s) p))"
  using assms
  by (cases "snd tx")
    (auto simp: transact_def initialize_def updateAuthorization_def
       updateAuthorization_legacy_def
       internal_updateAuthorization_def confirmOperatorAddress_def Let_def
       split: sum.splits if_splits option.splits)

lemma run_keeps_confirmation:
  assumes "\<forall>tx\<in>set txs. \<not> isUpdateOperator (snd tx)"
    and "operatorConfirmed (stakingProviderInfo s p)"
  shows "operatorToStakingProvider (run s txs) = operatorToStakingProvider s
         \<and> operatorConfirmed (stakingProviderInfo (run s txs) p)"
  using assms
proof (induction txs arbitrary: s)
  case Nil
  then show ?case by simp
next
  case (Cons tx txs)
  from Cons.prems have tx: "\<not> isUpdateOperator (snd tx)" by simp
  have step: "operatorToStakingProvider (transact tx s) = operatorToStakingProvider s"
    "operatorConfirmed (stakingProviderInfo (transact tx s) p)"
    using transact_keeps_confirmation [OF tx, where s = s and p = p] Cons.prems(2) by simp_all
  from Cons.prems have rest: "\<forall>tx\<in>set txs. \<not> isUpdateOperator (snd tx)" by simp
  show ?case using Cons.IH [OF rest step(2)] step(1) by simp
qed

subsection \<open>Providers that were never given an operator\<close>

lemma transact_unassigned:
  assumes "\<not> assignsOperator (rootApplication s) p (snd tx)"
    and "operator (stakingProviderInfo s p) = 0"
    and "index (stakingProviderInfo s p) = 0"
    and "p \<notin> set (stakingProviders s)"
  shows "operator (stakingProviderInfo (transact tx s) p) = 0
         \<and> index (stakingProviderInfo (transact tx s) p) = 0
         \<and> p \<notin> set (stakingProviders (transact tx s))"
  using assms
  by (cases "snd tx")
    (auto simp: transact_def initialize_def updateOperator_def updateAuthorization_def
       updateAuthorization_legacy_def internal_updateOperator_def
       internal_updateAuthorization_def confirmOperatorAddress_def Let_def
       split: sum.splits if_splits option.splits)

lemma run_unassigned:
  assumes "\<forall>tx\<in>set txs. \<not> assignsOperator (rootApplication s) p (snd tx)"
    and "operator (stakingProviderInfo s p) = 0"
    and "index (stakingProviderInfo s p) = 0"
    and "p \<notin> set (stakingProviders s)"
  shows "index (stakingProviderInfo (run s txs) p) = 0
         \<and> p \<notin> set (stakingProviders (run s txs))"
  using assms
proof (induction txs arbitrary: s)
  case Nil
  then show ?case by simp
next
  case (Cons tx txs)
  from Cons.prems(1) have now: "\<not> assignsOperator (rootApplication s) p (snd tx)" by simp
  note step = transact_unassigned [OF now Cons.prems(2-4)]
  from Cons.prems(1)
  have later: "\<forall>t\<in>set txs. \<not> assignsOperator (rootApplication (transact tx s)) p (snd t)"
    by (simp add: transact_immutables)
  from Cons.IH [OF later] step show ?case by simp
qed

subsection \<open>Evaluation of the sample deployment\<close>

lemmas demo_simps = demo_env_def demo_fresh_def demo_txs_def demo_bound_def demo_confirmed_def
  transact_def initialize_def updateOperator_def updateAuthorization_def
  updateAuthorization_legacy_def internal_updateOperator_def internal_updateAuthorization_def
  confirmOperatorAddress_def zeroInfo_def Let_def

lemma constructor_demo: "constructor 1 50 = Inr demo_fresh"
  by (simp add: constructor_def demo_fresh_def)

lemma demo_confirmed_run:
  "demo_confirmed = run demo_fresh (demo_txs @ [(demo_env, ConfirmOperatorAddress 2 20)])"
  by (simp only: run_snoc demo_confirmed_def demo_bound_def)

lemma demo_bound_providers: "stakingProviders demo_bound = [10]"
  by (simp add: demo_simps)

lemma demo_confirmed_providers: "stakingProviders demo_confirmed = [10]"
  by (simp add: demo_simps)

lemma demo_confirmed_info:
  "stakingProviderInfo demo_confirmed 10 = \<lparr>operator = 20, authorized = 100,
      operatorConfirmed = True, index = 1, deauthorizing = 40, endDeauthorization = 5000\<rparr>"
  "minimumAuthorization demo_confirmed = 50"
  by (simp_all add: demo_simps)

lemma demo_underwater_providers: "stakingProviders demo_underwater = [10]"
  by (simp add: demo_underwater_def demo_simps)

lemma demo_underwater_info:
  "stakingProviderInfo demo_underwater 10 = \<lparr>operator = 20, authorized = 0,
      operatorConfirmed = False, index = 1, deauthorizing = 1, endDeauthorization = 1\<rparr>"
  "minimumAuthorization demo_underwater = 50"
  by (simp_all add: demo_underwater_def demo_simps)

lemma demo_pair_providers: "stakingProviders demo_pair = [10, 11]"
  by (simp add: demo_pair_def demo_simps)

lemma demo_pair_info:
  "stakingProviderInfo demo_pair 10 = \<lparr>operator = 20, authorized = 100, operatorConfirmed = True,
      index = 1, deauthorizing = 40, endDeauthorization = 5000\<rparr>"
  "stakingProviderInfo demo_pair 11 = \<lparr>operator = 22, authorized = 70, operatorConfirmed = True,
      index = 2, deauthorizing = 0, endDeauthorization = 0\<rparr>"
  "minimumAuthorization demo_pair = 50"
  by (simp_all add: demo_pair_def demo_simps)

lemma demo_whales_providers: "stakingProviders demo_whales = [10, 11]"
  by (simp add: demo_whales_def demo_pair_def demo_simps)

lemma demo_whales_info:
  "stakingProviderInfo demo_whales 10 = \<lparr>operator = 20, authorized = 2 ^ 95,
      operatorConfirmed = True, index = 1, deauthorizing = 0, endDeauthorization = 0\<rparr>"
  "stakingProviderInfo demo_whales 11 = \<lparr>operator = 22, authorized = 2 ^ 95,
      operatorConfirmed = True, index = 2, deauthorizing = 0, endDeauthorization = 0\<rparr>"
  "minimumAuthorization demo_whales = 50"
  by (simp_all add: demo_whales_def demo_pair_def demo_simps)

lemma demo_leaving_providers: "stakingProviders demo_leaving = [10]"
  by (simp add: demo_leaving_def demo_simps)

lemma demo_leaving_info:
  "stakingProviderInfo demo_leaving 10 = \<lparr>operator = 20, authorized = 100,
      operatorConfirmed = True, index = 1, deauthorizing = 60, endDeauthorization = 5000\<rparr>"
  "minimumAuthorization demo_leaving = 50"
  by (simp_all add: demo_leaving_def demo_simps)

lemmas demo_eval = isActive_def stakeAt_def eligibleStake_cases unat_minus_one_256 Let_def
  demo_pair_providers demo_pair_info demo_whales_providers demo_whales_info
  demo_underwater_providers demo_underwater_info demo_confirmed_providers demo_confirmed_info

section \<open>The claims\<close>

text \<open>
  C1 (as amended). \<open>getActiveStakingProviders(0, 0, 0)\<close> fails with "Wrong start index"
  when \<open>stakingProviders\<close> is empty. The stake it counts for a provider is its eligible
  stake at the unbounded horizon: \<open>authorized - deauthorizing\<close> when
  \<open>endDeauthorization \<noteq> 0\<close>, and \<open>authorized\<close> otherwise. The call reverts with an
  arithmetic panic when an enumerated provider with \<open>endDeauthorization \<noteq> 0\<close> has
  \<open>deauthorizing > authorized\<close> or when the sum does not fit \<open>uint96\<close>. In all other cases
  it returns, in the order of \<open>stakingProviders\<close>, exactly the providers with
  \<open>operatorConfirmed\<close> and that stake not below \<open>minimumAuthorization\<close>, each packed with
  that stake, and \<open>allAuthorizedTokens\<close> is the sum of those stakes. For providers without
  pending deauthorization that stake is the \<open>authorized\<close> field.
\<close>

theorem getActiveStakingProviders_all:
  "getActiveStakingProviders e 0 0 0 s =
     (let xs = stakingProviders s;
          pending = (\<lambda>p. endDeauthorization (stakingProviderInfo s p) \<noteq> 0);
          stake = (\<lambda>p. if pending p
                       then unat (authorized (stakingProviderInfo s p))
                              - unat (deauthorizing (stakingProviderInfo s p))
                       else unat (authorized (stakingProviderInfo s p)));
          active = filter (\<lambda>p. operatorConfirmed (stakingProviderInfo s p)
                                 \<and> unat (minimumAuthorization s) \<le> stake p) xs;
          amount = sum_list (map stake active)
      in if xs = [] then Inl WrongStartIndex
         else if (\<exists>p\<in>set xs. pending p
                     \<and> unat (authorized (stakingProviderInfo s p))
                         < unat (deauthorizing (stakingProviderInfo s p)))
                 \<or> 2 ^ 96 \<le> amount
         then Inl Panic
         else Inr (of_nat amount, map (\<lambda>p. packEntry p (of_nat (stake p))) active))"
proof -
  define xs where "xs = stakingProviders s"
  define under where "under = (\<lambda>p. endDeauthorization (stakingProviderInfo s p) \<noteq> 0
     \<and> unat (authorized (stakingProviderInfo s p)) < unat (deauthorizing (stakingProviderInfo s p)))"
  define stake where "stake = (\<lambda>p. if endDeauthorization (stakingProviderInfo s p) \<noteq> 0
                       then unat (authorized (stakingProviderInfo s p))
                              - unat (deauthorizing (stakingProviderInfo s p))
                       else unat (authorized (stakingProviderInfo s p)))"
  define active where "active = filter (\<lambda>p. operatorConfirmed (stakingProviderInfo s p)
                                 \<and> unat (minimumAuthorization s) \<le> stake p) xs"
  have goal: "getActiveStakingProviders e 0 0 0 s =
      (if xs = [] then Inl WrongStartIndex
       else if (\<exists>p\<in>set xs. under p) \<or> 2 ^ 96 \<le> sum_list (map stake active)
       then Inl Panic
       else Inr (of_nat (sum_list (map stake active)),
                 map (\<lambda>p. packEntry p (of_nat (stake p))) active))"
  proof (cases "\<exists>p\<in>set xs. under p")
    case True
    then have "\<exists>p\<in>set (stakingProviders s). eligibleStake s p (- 1) = Inl Panic"
      by (simp add: panic_forever under_def xs_def)
    then show ?thesis
      using True by (simp add: getActiveStakingProviders_forever xs_def)
  next
    case False
    then have none: "\<forall>p\<in>set xs. \<not> under p" by simp
    then have nopanic: "\<not> (\<exists>p\<in>set (stakingProviders s). eligibleStake s p (- 1) = Inl Panic)"
      by (simp add: panic_forever under_def xs_def)
    have st: "unat (stakeAt s (- 1) p) = stake p" if "p \<in> set xs" for p
      using none that stakeAt_forever [of s p] by (simp add: under_def stake_def)
    have st': "stakeAt s (- 1) p = of_nat (stake p)" if "p \<in> set xs" for p
      using st [OF that, symmetric] by simp
    have "filter (isActive s (- 1)) xs
        = filter (\<lambda>p. operatorConfirmed (stakingProviderInfo s p)
                    \<and> unat (minimumAuthorization s) \<le> unat (stakeAt s (- 1) p)) xs"
      using none unfolding under_def by (rule filter_forever)
    also have "\<dots> = active"
      unfolding active_def by (rule filter_cong) (simp_all add: st)
    finally have filt: "filter (isActive s (- 1)) (stakingProviders s) = active"
      by (simp add: xs_def)
    have sub: "p \<in> set xs" if "p \<in> set active" for p
      using that by (simp add: active_def)
    have m1: "map (\<lambda>p. unat (stakeAt s (- 1) p)) active = map stake active"
      by (rule map_cong) (simp_all add: st sub)
    have m2: "map (\<lambda>p. packEntry p (stakeAt s (- 1) p)) active
        = map (\<lambda>p. packEntry p (of_nat (stake p))) active"
      by (rule map_cong) (simp_all add: st' sub)
    show ?thesis
      unfolding getActiveStakingProviders_forever filt m1 m2
      using False nopanic by (simp add: xs_def)
  qed
  show ?thesis
    unfolding Let_def goal
    by (simp only: xs_def under_def stake_def active_def)
qed

theorem getActiveStakingProviders_all_witness:
  "getActiveStakingProviders demo_env 0 0 0 demo_pair
     = Inr (130, [packEntry 10 60, packEntry 11 70])
   \<and> getActiveStakingProviders demo_env 0 0 0 demo_fresh = Inl WrongStartIndex"
proof -
  have a: "getActiveStakingProviders demo_env 0 0 0 demo_pair
     = Inr (130, [packEntry 10 60, packEntry 11 70])"
    by (simp add: getActiveStakingProviders_all demo_pair_providers demo_pair_info)
  have b: "getActiveStakingProviders demo_env 0 0 0 demo_fresh = Inl WrongStartIndex"
    by (simp add: getActiveStakingProviders_all demo_fresh_def)
  from a b show ?thesis by simp
qed

text \<open>
  C1 as stated fails. On the freshly constructed registry the call reverts. Provider 10,
  confirmed and with \<open>authorized = 100 \<ge> 50\<close>, is returned with amount 60 and sum 60 while
  40 are being deauthorized, and is not returned at all while 60 are being deauthorized.
  The call reverts when \<open>deauthorizing > authorized\<close> and when the sum overflows.
\<close>

theorem getActiveStakingProviders_all_counterexample:
  "stakingProviders demo_fresh = []
   \<and> getActiveStakingProviders demo_env 0 0 0 demo_fresh = Inl WrongStartIndex
   \<and> stakingProviders demo_confirmed = [10]
   \<and> operatorConfirmed (stakingProviderInfo demo_confirmed 10)
   \<and> authorized (stakingProviderInfo demo_confirmed 10) = 100
   \<and> minimumAuthorization demo_confirmed = 50
   \<and> getActiveStakingProviders demo_env 0 0 0 demo_confirmed = Inr (60, [packEntry 10 60])
   \<and> stakingProviders demo_leaving = [10]
   \<and> operatorConfirmed (stakingProviderInfo demo_leaving 10)
   \<and> authorized (stakingProviderInfo demo_leaving 10) = 100
   \<and> minimumAuthorization demo_leaving = 50
   \<and> getActiveStakingProviders demo_env 0 0 0 demo_leaving = Inr (0, [])
   \<and> getActiveStakingProviders demo_env 0 0 0 demo_underwater = Inl Panic
   \<and> getActiveStakingProviders demo_env 0 0 0 demo_whales = Inl Panic"
proof -
  have a: "getActiveStakingProviders demo_env 0 0 0 demo_fresh = Inl WrongStartIndex"
    by (simp add: getActiveStakingProviders_forever demo_fresh_def)
  have b: "getActiveStakingProviders demo_env 0 0 0 demo_confirmed = Inr (60, [packEntry 10 60])"
    by (simp add: getActiveStakingProviders_forever demo_eval)
  have c: "getActiveStakingProviders demo_env 0 0 0 demo_leaving = Inr (0, [])"
    by (simp add: getActiveStakingProviders_forever demo_eval demo_leaving_providers
          demo_leaving_info)
  have d: "getActiveStakingProviders demo_env 0 0 0 demo_underwater = Inl Panic"
    by (simp add: getActiveStakingProviders_forever demo_eval)
  have e: "getActiveStakingProviders demo_env 0 0 0 demo_whales = Inl Panic"
    by (simp add: getActiveStakingProviders_forever demo_eval)
  from a b c d e show ?thesis
    by (simp add: demo_fresh_def demo_confirmed_providers demo_confirmed_info
          demo_leaving_providers demo_leaving_info)
qed

text \<open>
  C2 (as amended). In every state reached from construction, one transaction changes
  \<open>operatorConfirmed\<close> of a provider from false to true only when it is
  \<open>confirmOperatorAddress\<close> called by the coordinator for the operator currently bound to
  that provider, and from true to false only when it is \<open>updateOperator\<close> called by the
  root application binding that provider to a different operator. No other call changes
  the flag.
\<close>

theorem operatorConfirmed_transitions:
  assumes "constructor r m = Inr s0" and "s = run s0 txs"
  shows "(\<not> operatorConfirmed (stakingProviderInfo s p)
            \<and> operatorConfirmed (stakingProviderInfo (transact (e, c) s) p)
          \<longrightarrow> (\<exists>op. c = ConfirmOperatorAddress (coordinator s) op
                 \<and> operatorToStakingProvider s op = p
                 \<and> operator (stakingProviderInfo s p) = op))
       \<and> (operatorConfirmed (stakingProviderInfo s p)
            \<and> \<not> operatorConfirmed (stakingProviderInfo (transact (e, c) s) p)
          \<longrightarrow> (\<exists>op. c = UpdateOperator (rootApplication s) p op
                 \<and> op \<noteq> operator (stakingProviderInfo s p)))"
proof -
  have inv: "registryInv s" using assms by (simp add: constructor_inv run_inv)
  then have bound: "operatorToStakingProvider s a \<noteq> 0 \<Longrightarrow>
      operator (stakingProviderInfo s (operatorToStakingProvider s a)) = a" for a
    by (simp add: registryInv_def)
  from inv have zero: "authorized (stakingProviderInfo s 0) = 0" "0 < minimumAuthorization s"
    by (simp_all add: registryInv_def zeroInfo_def)
  show ?thesis
  proof (cases c)
    case (Initialize coord)
    then show ?thesis
      by (auto simp: transact_def initialize_def split: sum.splits if_splits option.splits)
  next
    case (UpdateOperator sender q op)
    then show ?thesis
      by (auto simp: transact_def updateOperator_def internal_updateOperator_def Let_def
            split: sum.splits if_splits)
  next
    case (UpdateAuthorizationLegacy sender q a)
    then show ?thesis
      by (auto simp: transact_def updateAuthorization_legacy_def
            internal_updateAuthorization_def Let_def split: sum.splits if_splits)
  next
    case (UpdateAuthorization sender q a d t)
    then show ?thesis
      by (auto simp: transact_def updateAuthorization_def
            internal_updateAuthorization_def Let_def split: sum.splits if_splits)
  next
    case (ConfirmOperatorAddress sender op)
    show ?thesis
    proof (cases "confirmOperatorAddress e sender op s")
      case (Inl err)
      then show ?thesis using ConfirmOperatorAddress by (simp add: transact_def)
    next
      case (Inr s')
      let ?q = "operatorToStakingProvider s op"
      from Inr have s': "s' = s\<lparr>stakingProviderInfo := (stakingProviderInfo s)
                          (?q := (stakingProviderInfo s ?q)\<lparr>operatorConfirmed := True\<rparr>),
                        emitted := emitted s @ [OperatorConfirmed ?q op]\<rparr>"
        and sender: "sender = coordinator s"
        and enough: "minimumAuthorization s \<le> authorized (stakingProviderInfo s ?q)"
        by (simp_all add: confirmOperatorAddress_def Let_def split: if_splits)
      from enough zero have "?q \<noteq> 0" by auto
      then have "operator (stakingProviderInfo s ?q) = op" by (rule bound)
      then show ?thesis
        using ConfirmOperatorAddress Inr s' sender by (auto simp: transact_def)
    qed
  qed
qed

theorem operatorConfirmed_transitions_witness:
  "\<not> operatorConfirmed (stakingProviderInfo demo_bound 10)
   \<and> operatorConfirmed
        (stakingProviderInfo (transact (demo_env, ConfirmOperatorAddress 2 20) demo_bound) 10)
   \<and> coordinator demo_bound = 2
   \<and> operatorToStakingProvider demo_bound 20 = 10
   \<and> operator (stakingProviderInfo demo_bound 10) = 20
   \<and> operatorConfirmed (stakingProviderInfo demo_confirmed 10)
   \<and> \<not> operatorConfirmed
         (stakingProviderInfo (transact (demo_env, UpdateOperator 1 10 21) demo_confirmed) 10)
   \<and> rootApplication demo_confirmed = 1"
proof -
  have before: "\<not> operatorConfirmed (stakingProviderInfo demo_bound 10)"
    and after: "operatorConfirmed
        (stakingProviderInfo (transact (demo_env, ConfirmOperatorAddress 2 20) demo_bound) 10)"
    by (simp_all add: demo_simps)
  from operatorConfirmed_transitions [OF constructor_demo demo_bound_def,
      where p = 10 and e = demo_env and c = "ConfirmOperatorAddress 2 20"] before after
  have up: "coordinator demo_bound = 2 \<and> operatorToStakingProvider demo_bound 20 = 10
      \<and> operator (stakingProviderInfo demo_bound 10) = 20"
    by auto
  have before': "operatorConfirmed (stakingProviderInfo demo_confirmed 10)"
    and after': "\<not> operatorConfirmed
         (stakingProviderInfo (transact (demo_env, UpdateOperator 1 10 21) demo_confirmed) 10)"
    by (simp_all add: demo_simps)
  from operatorConfirmed_transitions [OF constructor_demo demo_confirmed_run,
      where p = 10 and e = demo_env and c = "UpdateOperator 1 10 21"] before' after'
  have down: "rootApplication demo_confirmed = 1"
    by auto
  from before after up before' after' down show ?thesis by simp
qed

text \<open>
  C2 as stated fails: the flag of provider 10 is true after the confirmation of operator
  20, and false again after \<open>updateOperator(10, 21)\<close>.
\<close>

theorem operatorConfirmed_reset_counterexample:
  "operatorConfirmed (stakingProviderInfo demo_confirmed 10)
   \<and> \<not> operatorConfirmed
         (stakingProviderInfo (transact (demo_env, UpdateOperator 1 10 21) demo_confirmed) 10)"
  by (simp add: demo_simps)

text \<open>
  C3 (as amended). When \<open>0 < endDeauthorization < endDate\<close>, \<open>eligibleStake\<close> returns
  \<open>authorized - deauthorizing\<close> provided \<open>deauthorizing \<le> authorized\<close>, and reverts with an
  arithmetic panic when \<open>deauthorizing > authorized\<close>; when \<open>endDeauthorization = 0\<close> or
  \<open>endDate \<le> endDeauthorization\<close> it returns \<open>authorized\<close>.
\<close>

theorem eligibleStake_formula:
  "(0 < unat (endDeauthorization (stakingProviderInfo s p))
      \<and> unat (endDeauthorization (stakingProviderInfo s p)) < unat endDate
      \<and> unat (deauthorizing (stakingProviderInfo s p))
            \<le> unat (authorized (stakingProviderInfo s p))
    \<longrightarrow> (\<exists>v. eligibleStake s p endDate = Inr v
             \<and> unat v + unat (deauthorizing (stakingProviderInfo s p))
                 = unat (authorized (stakingProviderInfo s p))))
   \<and> (0 < unat (endDeauthorization (stakingProviderInfo s p))
      \<and> unat (endDeauthorization (stakingProviderInfo s p)) < unat endDate
      \<and> unat (authorized (stakingProviderInfo s p))
            < unat (deauthorizing (stakingProviderInfo s p))
    \<longrightarrow> eligibleStake s p endDate = Inl Panic)
   \<and> (endDeauthorization (stakingProviderInfo s p) = 0
      \<or> unat endDate \<le> unat (endDeauthorization (stakingProviderInfo s p))
    \<longrightarrow> eligibleStake s p endDate = Inr (authorized (stakingProviderInfo s p)))"
  by (auto simp: eligibleStake_cases unat_sub word_le_nat_alt)

theorem eligibleStake_formula_witness:
  "eligibleStake demo_bound 10 5001 = Inr 60
   \<and> eligibleStake demo_bound 10 5000 = Inr 100
   \<and> eligibleStake demo_bound 10 4999 = Inr 100"
  using eligibleStake_formula [of demo_bound 10 5001]
    eligibleStake_formula [of demo_bound 10 5000]
    eligibleStake_formula [of demo_bound 10 4999]
  by (simp add: demo_simps eligibleStake_def)

text \<open>
  C3 as stated fails: with \<open>authorized = 0\<close>, \<open>deauthorizing = 1\<close> and
  \<open>endDeauthorization = 1\<close>, \<open>eligibleStake\<close> at end date 2 returns no value.
\<close>

theorem eligibleStake_reverts_counterexample:
  "endDeauthorization (stakingProviderInfo demo_underwater 10) = 1
   \<and> authorized (stakingProviderInfo demo_underwater 10) = 0
   \<and> deauthorizing (stakingProviderInfo demo_underwater 10) = 1
   \<and> eligibleStake demo_underwater 10 2 = Inl Panic"
  by (simp add: demo_underwater_def demo_simps eligibleStake_def)

text \<open>
  C4. Called by the coordinator, \<open>confirmOperatorAddress(operator)\<close> fails when the
  provider found through \<open>operatorToStakingProvider\<close> has \<open>authorized < minimumAuthorization\<close>,
  and fails when that provider is already confirmed. After a successful confirmation, a
  second call for the same operator fails (with "Can't confirm same operator twice" when
  it follows at once), whatever transactions other than \<open>updateOperator\<close> come in between.
\<close>

theorem confirmOperatorAddress_rejects:
  assumes "sender = coordinator s"
  shows "(authorized (stakingProviderInfo s (operatorToStakingProvider s op))
            < minimumAuthorization s
          \<longrightarrow> confirmOperatorAddress e sender op s = Inl AuthorizationBelowMinimum)
       \<and> (operatorConfirmed (stakingProviderInfo s (operatorToStakingProvider s op))
          \<longrightarrow> confirmOperatorAddress e sender op s = Inl AuthorizationBelowMinimum
              \<or> confirmOperatorAddress e sender op s = Inl ConfirmTwice)
       \<and> (\<forall>s'. confirmOperatorAddress e sender op s = Inr s'
            \<longrightarrow> confirmOperatorAddress e' (coordinator s') op s' = Inl ConfirmTwice
               \<and> (\<forall>txs. (\<forall>tx\<in>set txs. \<not> isUpdateOperator (snd tx))
                     \<longrightarrow> (\<exists>err. confirmOperatorAddress e' sender' op (run s' txs) = Inl err)))"
proof (intro conjI impI allI)
  assume "authorized (stakingProviderInfo s (operatorToStakingProvider s op))
            < minimumAuthorization s"
  then show "confirmOperatorAddress e sender op s = Inl AuthorizationBelowMinimum"
    using assms by (simp add: confirmOperatorAddress_def Let_def not_le)
next
  assume "operatorConfirmed (stakingProviderInfo s (operatorToStakingProvider s op))"
  then show "confirmOperatorAddress e sender op s = Inl AuthorizationBelowMinimum
              \<or> confirmOperatorAddress e sender op s = Inl ConfirmTwice"
    using assms by (simp add: confirmOperatorAddress_def Let_def)
next
  fix s'
  assume ok: "confirmOperatorAddress e sender op s = Inr s'"
  then show "confirmOperatorAddress e' (coordinator s') op s' = Inl ConfirmTwice"
    by (auto simp: confirmOperatorAddress_def Let_def split: if_splits)
next
  fix s' and txs :: "(env \<times> call) list"
  assume ok: "confirmOperatorAddress e sender op s = Inr s'"
    and quiet: "\<forall>tx\<in>set txs. \<not> isUpdateOperator (snd tx)"
  from ok have conf: "operatorConfirmed (stakingProviderInfo s' (operatorToStakingProvider s' op))"
    by (auto simp: confirmOperatorAddress_def Let_def split: if_splits)
  from run_keeps_confirmation [OF quiet conf]
  have "operatorConfirmed
          (stakingProviderInfo (run s' txs) (operatorToStakingProvider (run s' txs) op))"
    by simp
  then show "\<exists>err. confirmOperatorAddress e' sender' op (run s' txs) = Inl err"
    by (simp add: confirmOperatorAddress_def Let_def)
qed

theorem confirmOperatorAddress_rejects_witness:
  "confirmOperatorAddress demo_env 2 20 demo_bound = Inr demo_confirmed
   \<and> confirmOperatorAddress demo_env 2 20 demo_confirmed = Inl ConfirmTwice
   \<and> confirmOperatorAddress demo_env 2 20
        (run demo_confirmed [(demo_env, UpdateAuthorization 1 10 100 0 0)]) = Inl ConfirmTwice
   \<and> confirmOperatorAddress demo_env 2 20 demo_underwater = Inl AuthorizationBelowMinimum"
  using confirmOperatorAddress_rejects [where sender = 2 and s = demo_bound and op = 20
      and e = demo_env and e' = demo_env and sender' = 2]
    confirmOperatorAddress_rejects [where sender = 2 and s = demo_confirmed and op = 20
      and e = demo_env]
    confirmOperatorAddress_rejects [where sender = 2 and s = demo_underwater and op = 20
      and e = demo_env]
  by (simp add: demo_underwater_def demo_simps)

text \<open>
  C5. Called by the root application, \<open>updateOperator(provider, operator)\<close> leaves the
  storage and the log as they are when the provider is the zero address or the operator
  is the provider's current one. Otherwise it binds the new operator, clears the entry of
  the previous operator in \<open>operatorToStakingProvider\<close>, maps a non-zero operator to the
  provider, resets \<open>operatorConfirmed\<close> and emits \<open>OperatorUpdated\<close>.
\<close>

theorem updateOperator_effect:
  assumes "sender = rootApplication s"
  shows "(p = 0 \<or> op = operator (stakingProviderInfo s p)
            \<longrightarrow> updateOperator sender p op s = Inr s)
       \<and> (p \<noteq> 0 \<and> op \<noteq> operator (stakingProviderInfo s p)
            \<longrightarrow> (\<exists>s'. updateOperator sender p op s = Inr s'
                   \<and> operator (stakingProviderInfo s' p) = op
                   \<and> operatorToStakingProvider s' (operator (stakingProviderInfo s p)) = 0
                   \<and> (op \<noteq> 0 \<longrightarrow> operatorToStakingProvider s' op = p)
                   \<and> \<not> operatorConfirmed (stakingProviderInfo s' p)
                   \<and> emitted s' = emitted s @ [OperatorUpdated p op]))"
  using assms
  by (auto simp: updateOperator_def internal_updateOperator_def Let_def)

theorem updateOperator_effect_witness:
  "updateOperator 1 0 21 demo_confirmed = Inr demo_confirmed
   \<and> updateOperator 1 10 20 demo_confirmed = Inr demo_confirmed
   \<and> operatorConfirmed (stakingProviderInfo demo_confirmed 10)
   \<and> operatorToStakingProvider demo_confirmed 20 = 10
   \<and> operator (stakingProviderInfo (transact (demo_env, UpdateOperator 1 10 21) demo_confirmed) 10) = 21
   \<and> operatorToStakingProvider (transact (demo_env, UpdateOperator 1 10 21) demo_confirmed) 20 = 0
   \<and> operatorToStakingProvider (transact (demo_env, UpdateOperator 1 10 21) demo_confirmed) 21 = 10
   \<and> \<not> operatorConfirmed
         (stakingProviderInfo (transact (demo_env, UpdateOperator 1 10 21) demo_confirmed) 10)"
  using updateOperator_effect [where sender = 1 and s = demo_confirmed and p = 0 and op = 21]
    updateOperator_effect [where sender = 1 and s = demo_confirmed and p = 10 and op = 20]
    updateOperator_effect [where sender = 1 and s = demo_confirmed and p = 10 and op = 21]
  by (simp add: demo_simps)

text \<open>
  C6. After every sequence of transactions from construction (those calling
  \<open>updateOperator\<close> among them), no provider occurs twice in \<open>stakingProviders\<close>, a provider
  that the root application never gave an operator is not in \<open>stakingProviders\<close> and has
  \<open>index = 0\<close>, and the \<open>index\<close> of an enumerated provider is its position plus one.
\<close>

theorem stakingProviders_enumeration:
  assumes "constructor r m = Inr s0" and "s = run s0 txs"
  shows "distinct (stakingProviders s)
         \<and> (\<forall>p. (\<forall>tx\<in>set txs. \<not> assignsOperator r p (snd tx))
                \<longrightarrow> p \<notin> set (stakingProviders s)
                    \<and> index (stakingProviderInfo s p) = 0)
         \<and> (\<forall>i < length (stakingProviders s).
                unat (index (stakingProviderInfo s (stakingProviders s ! i))) = i + 1)"
proof -
  have inv: "registryInv s" using assms by (simp add: constructor_inv run_inv)
  have fresh: "rootApplication s0 = r" "stakingProviders s0 = []"
    "stakingProviderInfo s0 = (\<lambda>a. zeroInfo)"
    using assms(1) by (auto simp: constructor_def split: if_splits)
  have never: "p \<notin> set (stakingProviders s) \<and> index (stakingProviderInfo s p) = 0"
    if "\<forall>tx\<in>set txs. \<not> assignsOperator r p (snd tx)" for p
    using run_unassigned [of txs s0 p] that fresh assms(2) by (simp add: zeroInfo_def)
  from inv never show ?thesis by (simp add: registryInv_def)
qed

theorem stakingProviders_enumeration_witness:
  "stakingProviders demo_bound = [10]
   \<and> unat (index (stakingProviderInfo demo_bound 10)) = 1
   \<and> 11 \<notin> set (stakingProviders demo_bound)
   \<and> index (stakingProviderInfo demo_bound 11) = 0"
proof -
  note fact = stakingProviders_enumeration [OF constructor_demo demo_bound_def]
  have "\<forall>tx\<in>set demo_txs. \<not> assignsOperator 1 11 (snd tx)"
    by (simp add: demo_txs_def)
  with fact have a: "11 \<notin> set (stakingProviders demo_bound)
      \<and> index (stakingProviderInfo demo_bound 11) = 0"
    by blast
  from fact have "0 < length (stakingProviders demo_bound) \<longrightarrow>
      unat (index (stakingProviderInfo demo_bound (stakingProviders demo_bound ! 0))) = 0 + 1"
    by blast
  then have b: "unat (index (stakingProviderInfo demo_bound 10)) = 1"
    by (simp add: demo_bound_providers)
  from a b show ?thesis by (simp add: demo_bound_providers)
qed

text \<open>
  C7 (as amended). \<open>getActiveStakingProviders(startIndex, maxCount, cohortDuration)\<close> fails
  with "Wrong start index" when \<open>startIndex \<ge> stakingProviders.length\<close>. Otherwise it
  reverts with an arithmetic panic when \<open>maxCount \<noteq> 0\<close> and \<open>startIndex + maxCount\<close>
  overflows \<open>uint256\<close>, when \<open>cohortDuration \<noteq> 0\<close> and \<open>now + cohortDuration\<close> overflows
  \<open>uint256\<close>, when \<open>eligibleStake\<close> reverts for a scanned provider, or when the sum of the
  surviving amounts does not fit \<open>uint96\<close>. In all other cases it scans exactly
  \<open>stakingProviders[startIndex .. startIndex + maxCount)\<close>, cut at the end of the array
  (the whole rest when \<open>maxCount = 0\<close>), at the horizon \<open>now + cohortDuration\<close>
  (\<open>2 ^ 256 - 1\<close> when \<open>cohortDuration = 0\<close>), skips every provider whose eligible stake is
  below \<open>minimumAuthorization\<close> or whose operator is unconfirmed, and returns the surviving
  entries in order without gaps, together with the sum of their eligible stakes.
\<close>

theorem getActiveStakingProviders_scan:
  "getActiveStakingProviders e startIndex maxCount cohortDuration s =
     (let xs = stakingProviders s;
          horizon = (if cohortDuration = 0 then 2 ^ 256 - 1
                     else unat (timestamp e) + unat cohortDuration);
          endDate = of_nat horizon;
          scanned = (if maxCount = 0 then drop (unat startIndex) xs
                     else take (unat maxCount) (drop (unat startIndex) xs));
          surviving = filter (isActive s endDate) scanned;
          amount = sum_list (map (\<lambda>p. unat (stakeAt s endDate p)) surviving)
      in if length xs \<le> unat startIndex then Inl WrongStartIndex
         else if (maxCount \<noteq> 0 \<and> 2 ^ 256 \<le> unat startIndex + unat maxCount)
                 \<or> 2 ^ 256 \<le> horizon
                 \<or> (\<exists>p\<in>set scanned. eligibleStake s p endDate = Inl Panic)
                 \<or> 2 ^ 96 \<le> amount
         then Inl Panic
         else Inr (of_nat amount, map (\<lambda>p. packEntry p (stakeAt s endDate p)) surviving))"
  unfolding Let_def endDate_horizon
  by (simp add: getActiveStakingProviders_char Let_def not_less)

theorem getActiveStakingProviders_scan_witness:
  "getActiveStakingProviders demo_env 1 1 3000 demo_pair = Inr (70, [packEntry 11 70])
   \<and> getActiveStakingProviders demo_env 0 0 3000 demo_pair
       = Inr (170, [packEntry 10 100, packEntry 11 70])
   \<and> getActiveStakingProviders demo_env 0 5 5000 demo_pair
       = Inr (130, [packEntry 10 60, packEntry 11 70])
   \<and> getActiveStakingProviders demo_env 0 1 0 demo_pair = Inr (60, [packEntry 10 60])
   \<and> getActiveStakingProviders demo_env 2 0 0 demo_pair = Inl WrongStartIndex"
proof -
  have a: "getActiveStakingProviders demo_env 1 1 3000 demo_pair = Inr (70, [packEntry 11 70])"
    by (simp add: getActiveStakingProviders_scan demo_eval demo_env_def)
  have b: "getActiveStakingProviders demo_env 0 0 3000 demo_pair
       = Inr (170, [packEntry 10 100, packEntry 11 70])"
    by (simp add: getActiveStakingProviders_scan demo_eval demo_env_def)
  have c: "getActiveStakingProviders demo_env 0 5 5000 demo_pair
       = Inr (130, [packEntry 10 60, packEntry 11 70])"
    by (simp add: getActiveStakingProviders_scan demo_eval demo_env_def)
  have d: "getActiveStakingProviders demo_env 0 1 0 demo_pair = Inr (60, [packEntry 10 60])"
    by (simp add: getActiveStakingProviders_scan demo_eval demo_env_def)
  have e: "getActiveStakingProviders demo_env 2 0 0 demo_pair = Inl WrongStartIndex"
    by (simp add: getActiveStakingProviders_scan demo_eval demo_env_def)
  from a b c d e show ?thesis by simp
qed

text \<open>
  C7 as stated fails: each of these calls has its start index in range and reverts.
  With two providers, \<open>startIndex = 1\<close> and \<open>maxCount = 2 ^ 256 - 1\<close> overflow the addition;
  the provider with \<open>deauthorizing > authorized\<close> makes \<open>eligibleStake\<close> revert; the
  timestamp \<open>2 ^ 256 - 1\<close> with \<open>cohortDuration = 1\<close> overflows the horizon; two stakes of
  \<open>2 ^ 95\<close> overflow the sum.
\<close>

theorem getActiveStakingProviders_panics_counterexample:
  "unat (1 :: uint256) < length (stakingProviders demo_pair)
   \<and> getActiveStakingProviders demo_env 1 (- 1) 0 demo_pair = Inl Panic
   \<and> unat (0 :: uint256) < length (stakingProviders demo_underwater)
   \<and> getActiveStakingProviders demo_env 0 0 0 demo_underwater = Inl Panic
   \<and> getActiveStakingProviders (demo_env\<lparr>timestamp := - 1\<rparr>) 0 0 1 demo_pair = Inl Panic
   \<and> getActiveStakingProviders demo_env 0 0 0 demo_whales = Inl Panic"
proof -
  have a: "getActiveStakingProviders demo_env 1 (- 1) 0 demo_pair = Inl Panic"
    by (simp add: getActiveStakingProviders_char demo_eval unat_minus_one_256)
  have b: "getActiveStakingProviders demo_env 0 0 0 demo_underwater = Inl Panic"
    by (simp add: getActiveStakingProviders_char demo_eval)
  have c: "getActiveStakingProviders (demo_env\<lparr>timestamp := - 1\<rparr>) 0 0 1 demo_pair = Inl Panic"
    by (simp add: getActiveStakingProviders_char demo_eval unat_minus_one_256 demo_env_def)
  have d: "getActiveStakingProviders demo_env 0 0 0 demo_whales = Inl Panic"
    by (simp add: getActiveStakingProviders_char demo_eval)
  from a b c d show ?thesis
    by (simp add: demo_pair_providers demo_underwater_providers)
qed

text \<open>
  C8. \<open>initialize(coordinatorAddress)\<close> fails when the coordinator is already set, when
  \<open>coordinatorAddress\<close> is the zero address, and when the application recorded by the
  target coordinator is not this registry. When it succeeds it sets \<open>coordinator\<close>, which
  no later transaction changes, and every later call of \<open>initialize\<close> fails.
\<close>

theorem initialize_once:
  "(coordinator s \<noteq> 0 \<longrightarrow> (\<exists>err. initialize e c s = Inl err))
   \<and> (c = 0 \<longrightarrow> (\<exists>err. initialize e c s = Inl err))
   \<and> (application e c \<noteq> Some (thisAddress e) \<longrightarrow> (\<exists>err. initialize e c s = Inl err))
   \<and> (\<forall>s'. initialize e c s = Inr s'
         \<longrightarrow> coordinator s' = c
            \<and> (\<forall>txs. coordinator (run s' txs) = c
                   \<and> (\<forall>e' c'. \<exists>err. initialize e' c' (run s' txs) = Inl err)))"
proof (intro conjI impI allI)
  fix s' txs e' c'
  assume ok: "initialize e c s = Inr s'"
  then have c: "coordinator s' = c" "c \<noteq> 0"
    by (auto simp: initialize_def split: if_splits option.splits)
  then show "coordinator s' = c" by simp
  from c show stays: "coordinator (run s' txs) = c"
    using run_coordinator [of s' txs] by simp
  with c show "\<exists>err. initialize e' c' (run s' txs) = Inl err"
    by (simp add: initialize_def)
qed (auto simp: initialize_def split: option.splits)

theorem initialize_once_witness:
  "initialize demo_env 2 demo_fresh = Inr (demo_fresh\<lparr>coordinator := 2\<rparr>)
   \<and> coordinator (run (demo_fresh\<lparr>coordinator := 2\<rparr>) (tl demo_txs)) = 2
   \<and> initialize demo_env 7 (run (demo_fresh\<lparr>coordinator := 2\<rparr>) (tl demo_txs))
       = Inl CoordinatorAlreadySet
   \<and> initialize demo_env 0 demo_fresh = Inl CoordinatorNotSpecified
   \<and> initialize (demo_env\<lparr>thisAddress := 4\<rparr>) 2 demo_fresh = Inl InvalidCoordinator"
proof -
  have ok: "initialize demo_env 2 demo_fresh = Inr (demo_fresh\<lparr>coordinator := 2\<rparr>)"
    by (simp add: initialize_def demo_env_def demo_fresh_def)
  with initialize_once [where s = demo_fresh and e = demo_env and c = 2]
  have stays: "coordinator (run (demo_fresh\<lparr>coordinator := 2\<rparr>) (tl demo_txs)) = 2"
    by blast
  then have again: "initialize demo_env 7 (run (demo_fresh\<lparr>coordinator := 2\<rparr>) (tl demo_txs))
       = Inl CoordinatorAlreadySet"
    by (simp add: initialize_def demo_env_def)
  have zero: "initialize demo_env 0 demo_fresh = Inl CoordinatorNotSpecified"
    by (simp add: initialize_def demo_env_def demo_fresh_def)
  have other: "initialize (demo_env\<lparr>thisAddress := 4\<rparr>) 2 demo_fresh = Inl InvalidCoordinator"
    by (simp add: initialize_def demo_env_def demo_fresh_def)
  from ok stays again zero other show ?thesis by simp
qed

text \<open>
  C9. In every state reached from construction, for an operator \<open>op\<close> with
  \<open>operatorToStakingProvider[op]\<close> the zero address, \<open>confirmOperatorAddress(op)\<close> called by
  the coordinator fails with "Authorization must be greater than minimum": the record of
  the zero address has \<open>authorized = 0\<close> and \<open>minimumAuthorization\<close> is positive.
\<close>

theorem confirm_unbound_operator_fails:
  assumes "constructor r m = Inr s0" and "s = run s0 txs"
    and "operatorToStakingProvider s op = 0"
  shows "authorized (stakingProviderInfo s 0) = 0
         \<and> 0 < minimumAuthorization s
         \<and> confirmOperatorAddress e (coordinator s) op s = Inl AuthorizationBelowMinimum"
proof -
  have "registryInv s" using assms(1,2) by (simp add: constructor_inv run_inv)
  then have "authorized (stakingProviderInfo s 0) = 0" "0 < minimumAuthorization s"
    by (simp_all add: registryInv_def zeroInfo_def)
  then show ?thesis
    using assms(3) by (simp add: confirmOperatorAddress_def Let_def not_le)
qed

theorem confirm_unbound_operator_fails_witness:
  "constructor 1 50 = Inr demo_fresh
   \<and> operatorToStakingProvider (run demo_fresh demo_txs) 21 = 0
   \<and> confirmOperatorAddress demo_env (coordinator (run demo_fresh demo_txs)) 21
        (run demo_fresh demo_txs) = Inl AuthorizationBelowMinimum"
  using confirm_unbound_operator_fails [where r = 1 and m = 50 and ?s0.0 = demo_fresh
      and txs = demo_txs and s = "run demo_fresh demo_txs" and op = 21 and e = demo_env]
  by (simp add: constructor_def demo_simps)

text \<open>
  C10. \<open>eligibleStake\<close> is not total: when \<open>0 < endDeauthorization < endDate\<close> and
  \<open>deauthorizing > authorized\<close> the call reverts with an arithmetic panic. Such a record
  can be stored, since \<open>updateAuthorization\<close> called by the root application writes any
  three values for a provider other than the zero address. Under
  \<open>deauthorizing \<le> authorized\<close> the call returns the value of the formula.
\<close>

theorem eligibleStake_not_total:
  "(0 < unat (endDeauthorization (stakingProviderInfo s p))
      \<and> unat (endDeauthorization (stakingProviderInfo s p)) < unat endDate
      \<and> unat (authorized (stakingProviderInfo s p))
            < unat (deauthorizing (stakingProviderInfo s p))
    \<longrightarrow> eligibleStake s p endDate = Inl Panic)
   \<and> (p \<noteq> 0 \<longrightarrow>
        (\<exists>s'. updateAuthorization (rootApplication s) p a d t s = Inr s'
           \<and> authorized (stakingProviderInfo s' p) = a
           \<and> deauthorizing (stakingProviderInfo s' p) = d
           \<and> endDeauthorization (stakingProviderInfo s' p) = t))
   \<and> (unat (deauthorizing (stakingProviderInfo s p))
         \<le> unat (authorized (stakingProviderInfo s p))
    \<longrightarrow> (\<exists>v. eligibleStake s p endDate = Inr v
           \<and> unat v =
               (if 0 < unat (endDeauthorization (stakingProviderInfo s p))
                    \<and> unat (endDeauthorization (stakingProviderInfo s p)) < unat endDate
                then unat (authorized (stakingProviderInfo s p))
                       - unat (deauthorizing (stakingProviderInfo s p))
                else unat (authorized (stakingProviderInfo s p)))))"
proof (intro conjI impI)
  assume "0 < unat (endDeauthorization (stakingProviderInfo s p))
      \<and> unat (endDeauthorization (stakingProviderInfo s p)) < unat endDate
      \<and> unat (authorized (stakingProviderInfo s p))
            < unat (deauthorizing (stakingProviderInfo s p))"
  then show "eligibleStake s p endDate = Inl Panic"
    by (simp add: eligibleStake_cases)
next
  assume "p \<noteq> 0"
  then show "\<exists>s'. updateAuthorization (rootApplication s) p a d t s = Inr s'
           \<and> authorized (stakingProviderInfo s' p) = a
           \<and> deauthorizing (stakingProviderInfo s' p) = d
           \<and> endDeauthorization (stakingProviderInfo s' p) = t"
    by (simp add: updateAuthorization_def internal_updateAuthorization_def Let_def)
next
  assume "unat (deauthorizing (stakingProviderInfo s p))
         \<le> unat (authorized (stakingProviderInfo s p))"
  then show "\<exists>v. eligibleStake s p endDate = Inr v
           \<and> unat v =
               (if 0 < unat (endDeauthorization (stakingProviderInfo s p))
                    \<and> unat (endDeauthorization (stakingProviderInfo s p)) < unat endDate
                then unat (authorized (stakingProviderInfo s p))
                       - unat (deauthorizing (stakingProviderInfo s p))
                else unat (authorized (stakingProviderInfo s p)))"
    by (simp add: eligibleStake_cases unat_sub word_le_nat_alt)
qed

theorem eligibleStake_not_total_witness:
  "updateAuthorization 1 10 0 1 1 demo_bound = Inr demo_underwater
   \<and> eligibleStake demo_underwater 10 2 = Inl Panic
   \<and> eligibleStake demo_bound 10 5001 = Inr 60"
  using eligibleStake_not_total [where s = demo_underwater and p = 10 and endDate = 2]
    eligibleStake_not_total [where s = demo_bound and p = 10 and endDate = 5001
      and a = 0 and d = 1 and t = 1]
  by (simp add: demo_underwater_def demo_simps eligibleStake_def)

end
